theory Spec2Isabelle
  imports Main "HOL-Library.Sublist"
begin

section \<open>Exceptions and the rendered document\<close>

text \<open>
  The activity tools (\<^verbatim>\<open>tools/activity.py\<close>) read a rendered page through the
  browser-automation driver; the post tools (\<^verbatim>\<open>tools/posts.py\<close>) read a JSON file.
  Every \<^verbatim>\<open>raise\<close> of the source is a value \<open>Inl e\<close> of a sum type.
\<close>

datatype exn =
    NoSuchElementException
  | TimeoutException
  | WebDriverException
  | UnboundLocalError
  | AttributeError
  | KeyError
  | TypeError
  | ValueError
  | JSONDecodeError
  | IndexError

text \<open>
  An element of the rendered document: its tag, its class list, the text the driver
  reports for it (\<^verbatim>\<open>element.text\<close>) and its child elements in document order.
\<close>

datatype element =
  Element (tag_name: string) (class_names: "string list") (text_of: string)
    (children: "element list")

text \<open>The descendants of an element in document order (the element itself excluded).\<close>

fun descendants :: "element \<Rightarrow> element list" where
  "descendants (Element t cs x ch) = concat (map (\<lambda>c. c # descendants c) ch)"

text \<open>
  The CSS selectors the source uses have two shapes: \<^verbatim>\<open>tag.cls\<close> and
  \<^verbatim>\<open>tag.cls:not(.other)\<close>.
\<close>

datatype selector = Sel string string | SelNot string string string

fun matches :: "selector \<Rightarrow> element \<Rightarrow> bool" where
  "matches (Sel t c) e = (tag_name e = t \<and> c \<in> set (class_names e))"
| "matches (SelNot t c n) e =
     (tag_name e = t \<and> c \<in> set (class_names e) \<and> n \<notin> set (class_names e))"

text \<open>\<^verbatim>\<open>element.find_elements\<close> never raises; \<^verbatim>\<open>element.find_element\<close> returns the
  first match in document order and raises when there is none.\<close>

definition find_elements :: "element \<Rightarrow> selector \<Rightarrow> element list" where
  "find_elements e s = filter (matches s) (descendants e)"

definition find_element :: "element \<Rightarrow> selector \<Rightarrow> exn + element" where
  "find_element e s =
     (case find_elements e s of [] \<Rightarrow> Inl NoSuchElementException | x # _ \<Rightarrow> Inr x)"

text \<open>Sequencing of statements that may raise: the first exception ends the block.\<close>

definition and_then :: "exn + 'a \<Rightarrow> ('a \<Rightarrow> exn + 'b) \<Rightarrow> exn + 'b" where
  "and_then r f = (case r of Inl e \<Rightarrow> Inl e | Inr x \<Rightarrow> f x)"

text \<open>Python's \<^verbatim>\<open>needle in haystack\<close> on strings.\<close>

fun str_in :: "string \<Rightarrow> string \<Rightarrow> bool" where
  "str_in needle [] = (needle = [])"
| "str_in needle (c # cs) = (prefix needle (c # cs) \<or> str_in needle cs)"

definition SCROLL_CONTENT :: selector where
  "SCROLL_CONTENT = Sel ''div'' ''scaffold-finite-scroll__content''"

definition FEED_ITEM :: selector where
  "FEED_ITEM = Sel ''div'' ''feed-shared-update-v2''"

definition HEADER_TEXT :: selector where
  "HEADER_TEXT = Sel ''span'' ''update-components-header__text-view''"

definition ACTOR_TITLE :: selector where
  "ACTOR_TITLE = Sel ''span'' ''update-components-actor__title''"

definition ACTOR_SUB_DESCRIPTION :: selector where
  "ACTOR_SUB_DESCRIPTION = Sel ''span'' ''update-components-actor__sub-description''"

definition UPDATE_TEXT :: selector where
  "UPDATE_TEXT = Sel ''div'' ''update-components-text''"

definition REPLY_ENTITY :: selector where
  "REPLY_ENTITY = Sel ''article'' ''comments-comment-entity--reply''"

definition NON_REPLY_ENTITY :: selector where
  "NON_REPLY_ENTITY =
     SelNot ''article'' ''comments-comment-entity'' ''comments-comment-entity--reply''"

definition COMMENT_ENTITY :: selector where
  "COMMENT_ENTITY = Sel ''article'' ''comments-comment-entity''"

definition MAIN_CONTENT :: selector where
  "MAIN_CONTENT = Sel ''span'' ''comments-comment-item__main-content''"

definition TIME_META :: selector where
  "TIME_META = Sel ''time'' ''comments-comment-meta__data''"

definition MAX_COMMENTS :: int where
  "MAX_COMMENTS = 20"

definition MAX_REACTIONS :: int where
  "MAX_REACTIONS = 20"

section \<open>The browser session\<close>

text \<open>
  A page as the driver can observe it. Lazy loading makes the document depend on the
  scroll-to-bottom actions performed so far: \<open>height_after k\<close> is what
  \<^verbatim>\<open>document.body.scrollHeight\<close> evaluates to after \<open>k\<close> such actions (each followed
  by its settle pause) and \<open>dom_after k\<close> is the document root then. \<open>appears_at\<close> is
  the time after navigation at which the content container is first present
  (\<open>None\<close>: never).
\<close>

record page =
  height_after :: "nat \<Rightarrow> int"
  dom_after :: "nat \<Rightarrow> element"
  appears_at :: "nat option"

text \<open>
  The driver: the process-wide session of the source. \<open>session_error\<close> is the
  exception \<^verbatim>\<open>safe_get_driver\<close> raises, if any; \<open>site\<close> is what navigation to a URL
  gives; \<open>current\<close> is the loaded page; \<open>scrolls\<close> counts the scroll actions on it,
  \<open>scroll_y\<close> is the offset last scrolled to, \<open>slept\<close> the time spent in
  \<^verbatim>\<open>time.sleep\<close>, and \<open>visited\<close> the URLs navigated to, oldest first.
\<close>

record driver =
  session_error :: "exn option"
  site :: "string \<Rightarrow> exn + page"
  current :: page
  scrolls :: nat
  scroll_y :: int
  slept :: nat
  visited :: "string list"

definition document :: "driver \<Rightarrow> element" where
  "document d = dom_after (current d) (scrolls d)"

text \<open>\<^verbatim>\<open>driver.find_elements\<close> and \<^verbatim>\<open>driver.find_element\<close> search the whole document,
  its root included.\<close>

definition driver_find_elements :: "driver \<Rightarrow> selector \<Rightarrow> element list" where
  "driver_find_elements d s = filter (matches s) (document d # descendants (document d))"

definition driver_find_element :: "driver \<Rightarrow> selector \<Rightarrow> exn + element" where
  "driver_find_element d s =
     (case driver_find_elements d s of [] \<Rightarrow> Inl NoSuchElementException | x # _ \<Rightarrow> Inr x)"

text \<open>\<^verbatim>\<open>driver.execute_script("return document.body.scrollHeight")\<close>\<close>

definition scroll_height :: "driver \<Rightarrow> int" where
  "scroll_height d = height_after (current d) (scrolls d)"

text \<open>\<^verbatim>\<open>driver.execute_script("window.scrollTo(0, document.body.scrollHeight);")\<close>\<close>

definition scroll_to_bottom :: "driver \<Rightarrow> driver" where
  "scroll_to_bottom d = d\<lparr>scrolls := Suc (scrolls d), scroll_y := scroll_height d\<rparr>"

text \<open>\<^verbatim>\<open>time.sleep(n)\<close>\<close>

definition sleep :: "nat \<Rightarrow> driver \<Rightarrow> driver" where
  "sleep n d = d\<lparr>slept := slept d + n\<rparr>"

text \<open>\<^verbatim>\<open>driver.get(url)\<close>: the visit is recorded whether or not the page loads; the
  result is the exception raised, if any, and the driver afterwards.\<close>

definition driver_get :: "driver \<Rightarrow> string \<Rightarrow> exn option \<times> driver" where
  "driver_get d url =
     (case site d url of
        Inl e \<Rightarrow> (Some e, d\<lparr>visited := visited d @ [url]\<rparr>)
      | Inr p \<Rightarrow> (None, d\<lparr>current := p, scrolls := 0, scroll_y := 0,
                             visited := visited d @ [url]\<rparr>))"

text \<open>\<^verbatim>\<open>WebDriverWait(driver, timeout).until(presence_of_element_located(...))\<close>\<close>

definition wait_for_content :: "driver \<Rightarrow> nat \<Rightarrow> exn + unit" where
  "wait_for_content d timeout =
     (case appears_at (current d) of
        None \<Rightarrow> Inl TimeoutException
      | Some t \<Rightarrow> if t \<le> timeout then Inr () else Inl TimeoutException)"

section \<open>The scroll loader\<close>

text \<open>
  The \<^verbatim>\<open>while True\<close> loop of \<^verbatim>\<open>_scroll_for_items\<close> with its local
  \<^verbatim>\<open>last_height\<close>. The loop has no bound of its own, so not returning is the value
  \<open>None\<close>.
\<close>

partial_function (option) scroll_loop :: "int \<Rightarrow> int \<Rightarrow> driver \<Rightarrow> driver option" where
  "scroll_loop max_items last_height d =
     (if int (length (driver_find_elements d FEED_ITEM)) \<ge> max_items then Some d
      else if scroll_height (sleep 2 (scroll_to_bottom d)) = last_height
        then Some (sleep 2 (scroll_to_bottom d))
        else scroll_loop max_items (scroll_height (sleep 2 (scroll_to_bottom d)))
               (sleep 2 (scroll_to_bottom d)))"

definition scroll_for_items :: "driver \<Rightarrow> int \<Rightarrow> driver option" where
  "scroll_for_items d max_items = scroll_loop max_items (scroll_height d) d"

section \<open>The comment extractor\<close>

record comment_data =
  post_author :: string
  post_content :: string
  is_reply :: bool
  original_comment :: "string option"
  comment :: string
  timestamp :: string

text \<open>What the logger receives: one constructor per logging call of the source.\<close>

datatype log_entry =
    ParseWarning string exn
  | CommentsListError exn
  | ReactionsListError exn
  | CommentsTimeout string
  | CommentsError exn
  | ReactionsTimeout string
  | ReactionsError exn

text \<open>
  Lines 46 to 49: the header lookup and the substring test sit in a \<^verbatim>\<open>try\<close> whose
  handler sets \<^verbatim>\<open>is_reply = False\<close>.
\<close>

definition classify_attempt :: "element \<Rightarrow> exn + bool" where
  "classify_attempt item =
     and_then (find_element item HEADER_TEXT) (\<lambda>h. Inr (str_in ''replied to'' (text_of h)))"

definition classify :: "element \<Rightarrow> exn + bool" where
  "classify item = (case classify_attempt item of Inl e \<Rightarrow> Inr False | Inr b \<Rightarrow> Inr b)"

text \<open>
  Lines 53 to 73, after \<^verbatim>\<open>post_author\<close> has been assigned: the rest of the inner
  \<^verbatim>\<open>try\<close> block, which builds the record or raises.
\<close>

definition comment_fields :: "element \<Rightarrow> bool \<Rightarrow> string \<Rightarrow> exn + comment_data" where
  "comment_fields item reply author =
     (let content = (case find_elements item UPDATE_TEXT of [] \<Rightarrow> [] | x # _ \<Rightarrow> text_of x) in
      if reply then
        and_then (find_element item REPLY_ENTITY) (\<lambda>reply_element.
        and_then (find_element reply_element MAIN_CONTENT) (\<lambda>c.
        and_then (find_element reply_element TIME_META) (\<lambda>t.
        and_then (find_element item NON_REPLY_ENTITY) (\<lambda>original_comment_element.
        and_then (find_element original_comment_element MAIN_CONTENT) (\<lambda>oc.
          Inr \<lparr>post_author = author, post_content = content, is_reply = reply,
               original_comment = Some (text_of oc), comment = text_of c,
               timestamp = text_of t\<rparr>)))))
      else
        and_then (find_element item COMMENT_ENTITY) (\<lambda>comment_element.
        and_then (find_element comment_element MAIN_CONTENT) (\<lambda>c.
        and_then (find_element comment_element TIME_META) (\<lambda>t.
          Inr \<lparr>post_author = author, post_content = content, is_reply = reply,
               original_comment = None, comment = text_of c,
               timestamp = text_of t\<rparr>))))"

text \<open>
  The inner \<^verbatim>\<open>try\<close> block of one item (lines 51 to 75). The local variable
  \<^verbatim>\<open>post_author\<close> is \<open>None\<close> while it is unbound; the block returns its value
  after the block together with the record or the exception.
\<close>

definition parse_comment ::
  "element \<Rightarrow> bool \<Rightarrow> string option \<Rightarrow> string option \<times> (exn + comment_data)" where
  "parse_comment item reply author_var =
     (case find_element item ACTOR_TITLE of
        Inl e \<Rightarrow> (author_var, Inl e)
      | Inr a \<Rightarrow> (Some (text_of a), comment_fields item reply (text_of a)))"

text \<open>
  The \<^verbatim>\<open>for\<close> loop of \<^verbatim>\<open>_scrape_comments\<close> over the items, with the list built so far,
  the local \<^verbatim>\<open>post_author\<close> and the log. The handler of line 77 formats
  \<^verbatim>\<open>post_author\<close>: when that variable is still unbound the handler itself raises
  \<open>UnboundLocalError\<close>, which leaves the loop. The result is the list, the log and
  the exception that left the loop, if any.
\<close>

fun scrape_comments_loop ::
  "element list \<Rightarrow> comment_data list \<Rightarrow> string option \<Rightarrow> log_entry list \<Rightarrow>
   comment_data list \<times> log_entry list \<times> exn option" where
  "scrape_comments_loop [] comments author_var lg = (comments, lg, None)"
| "scrape_comments_loop (item # items) comments author_var lg =
     (if int (length comments) \<ge> MAX_COMMENTS then (comments, lg, None)
      else
        (case classify item of
           Inl e \<Rightarrow> (comments, lg, Some e)
         | Inr reply \<Rightarrow>
             (case parse_comment item reply author_var of
                (author_var', Inr comment_data) \<Rightarrow>
                  scrape_comments_loop items (comments @ [comment_data]) author_var' lg
              | (author_var', Inl e) \<Rightarrow>
                  (case author_var' of
                     None \<Rightarrow> (comments, lg, Some UnboundLocalError)
                   | Some a \<Rightarrow>
                       scrape_comments_loop items comments author_var'
                         (lg @ [ParseWarning a e])))))"

text \<open>
  \<^verbatim>\<open>_scrape_comments\<close>: the outer \<^verbatim>\<open>try\<close> logs whatever
  leaves the loop and the function returns the list built so far.
\<close>

definition scrape_comments :: "driver \<Rightarrow> comment_data list \<times> log_entry list" where
  "scrape_comments d =
     (case driver_find_element d SCROLL_CONTENT of
        Inl e \<Rightarrow> ([], [CommentsListError e])
      | Inr comment_list \<Rightarrow>
          (case scrape_comments_loop (find_elements comment_list FEED_ITEM) [] None [] of
             (comments, lg, None) \<Rightarrow> (comments, lg)
           | (comments, lg, Some e) \<Rightarrow> (comments, lg @ [CommentsListError e])))"

text \<open>The invariant of a comment record: the original comment is there exactly for a
  reply.\<close>

definition reply_invariant :: "comment_data \<Rightarrow> bool" where
  "reply_invariant r =
     (if is_reply r then original_comment r \<noteq> None else original_comment r = None)"

section \<open>The reaction extractor\<close>

record reaction_data =
  reaction_post_author :: string
  reaction_post_content :: string
  reaction :: string
  reaction_timestamp :: string

text \<open>The inner \<^verbatim>\<open>try\<close> block of \<^verbatim>\<open>_scrape_reactions\<close> (lines 93 to 102).\<close>

definition parse_reaction :: "element \<Rightarrow> exn + reaction_data" where
  "parse_reaction item =
     and_then (find_element item ACTOR_TITLE) (\<lambda>a.
     and_then (find_element item UPDATE_TEXT) (\<lambda>c.
     and_then (find_element item HEADER_TEXT) (\<lambda>r.
     and_then (find_element item ACTOR_SUB_DESCRIPTION) (\<lambda>t.
       Inr \<lparr>reaction_post_author = text_of a, reaction_post_content = text_of c,
            reaction = text_of r, reaction_timestamp = text_of t\<rparr>))))"

fun scrape_reactions_loop :: "element list \<Rightarrow> reaction_data list \<Rightarrow> reaction_data list" where
  "scrape_reactions_loop [] reactions = reactions"
| "scrape_reactions_loop (item # items) reactions =
     (if int (length reactions) \<ge> MAX_REACTIONS then reactions
      else
        (case parse_reaction item of
           Inr r \<Rightarrow> scrape_reactions_loop items (reactions @ [r])
         | Inl e \<Rightarrow> scrape_reactions_loop items reactions))"

definition scrape_reactions :: "driver \<Rightarrow> reaction_data list \<times> log_entry list" where
  "scrape_reactions d =
     (case driver_find_element d SCROLL_CONTENT of
        Inl e \<Rightarrow> ([], [ReactionsListError e])
      | Inr reaction_list \<Rightarrow>
          (scrape_reactions_loop (find_elements reaction_list FEED_ITEM) [], []))"

text \<open>The record an item gives, when all four lookups succeed.\<close>

definition reaction_of :: "element \<Rightarrow> reaction_data option" where
  "reaction_of item = (case parse_reaction item of Inl e \<Rightarrow> None | Inr r \<Rightarrow> Some r)"

section \<open>The activity orchestrator\<close>

datatype response =
    Activities (comments_of: "comment_data list") (reactions_of: "reaction_data list")
  | ToolError exn string

text \<open>
  Modelled from the spec: \<^verbatim>\<open>safe_get_driver\<close> and \<^verbatim>\<open>handle_tool_error\<close> live in
  \<^verbatim>\<open>linkedin_mcp_server.error_handler\<close>, which is not among the sources. The first gives
  the session or raises when the session is unavailable; the second turns an exception
  and a context label into a structured error response, kept symbolic here.
\<close>

definition safe_get_driver :: "driver \<Rightarrow> exn + driver" where
  "safe_get_driver d = (case session_error d of Some e \<Rightarrow> Inl e | None \<Rightarrow> Inr d)"

definition handle_tool_error :: "exn \<Rightarrow> string \<Rightarrow> response" where
  "handle_tool_error e label = ToolError e label"

definition comments_url :: "string \<Rightarrow> string" where
  "comments_url linkedin_username =
     ''https://www.linkedin.com/in/'' @ linkedin_username @ ''/recent-activity/comments/''"

definition reactions_url :: "string \<Rightarrow> string" where
  "reactions_url linkedin_username =
     ''https://www.linkedin.com/in/'' @ linkedin_username @ ''/recent-activity/reactions/''"

text \<open>The two \<^verbatim>\<open>except\<close> clauses of a phase: \<^verbatim>\<open>TimeoutException\<close> first, then
  \<^verbatim>\<open>Exception\<close>.\<close>

definition comments_handler :: "string \<Rightarrow> exn \<Rightarrow> log_entry" where
  "comments_handler linkedin_username e =
     (if e = TimeoutException then CommentsTimeout linkedin_username else CommentsError e)"

definition reactions_handler :: "string \<Rightarrow> exn \<Rightarrow> log_entry" where
  "reactions_handler linkedin_username e =
     (if e = TimeoutException then ReactionsTimeout linkedin_username else ReactionsError e)"

text \<open>
  Lines 135 to 147: the comments phase gives the value left in
  \<^verbatim>\<open>activities["comments"]\<close>, what it logged and the driver afterwards; \<open>None\<close> when
  the scroll loader does not return.
\<close>

definition comments_phase ::
  "string \<Rightarrow> driver \<Rightarrow> (comment_data list \<times> log_entry list \<times> driver) option" where
  "comments_phase linkedin_username d =
     (case driver_get d (comments_url linkedin_username) of
        (Some e, d1) \<Rightarrow> Some ([], [comments_handler linkedin_username e], d1)
      | (None, d1) \<Rightarrow>
          (case wait_for_content d1 20 of
             Inl e \<Rightarrow> Some ([], [comments_handler linkedin_username e], d1)
           | Inr _ \<Rightarrow>
               (case scroll_for_items d1 MAX_COMMENTS of
                  None \<Rightarrow> None
                | Some d2 \<Rightarrow>
                    (case scrape_comments d2 of (cs, lg) \<Rightarrow> Some (cs, lg, d2)))))"

text \<open>Lines 150 to 161: the reactions phase, likewise.\<close>

definition reactions_phase ::
  "string \<Rightarrow> driver \<Rightarrow> (reaction_data list \<times> log_entry list \<times> driver) option" where
  "reactions_phase linkedin_username d =
     (case driver_get d (reactions_url linkedin_username) of
        (Some e, d1) \<Rightarrow> Some ([], [reactions_handler linkedin_username e], d1)
      | (None, d1) \<Rightarrow>
          (case wait_for_content d1 20 of
             Inl e \<Rightarrow> Some ([], [reactions_handler linkedin_username e], d1)
           | Inr _ \<Rightarrow>
               (case scroll_for_items d1 MAX_REACTIONS of
                  None \<Rightarrow> None
                | Some d2 \<Rightarrow>
                    (case scrape_reactions d2 of (rs, lg) \<Rightarrow> Some (rs, lg, d2)))))"

text \<open>
  \<^verbatim>\<open>get_person_activity\<close>: the response, the log and the driver afterwards; \<open>None\<close>
  when a phase does not return.
\<close>

definition get_person_activity ::
  "driver \<Rightarrow> string \<Rightarrow> (response \<times> log_entry list \<times> driver) option" where
  "get_person_activity d linkedin_username =
     (case safe_get_driver d of
        Inl e \<Rightarrow> Some (handle_tool_error e ''get_person_activity'', [], d)
      | Inr driver \<Rightarrow>
          (case comments_phase linkedin_username driver of
             None \<Rightarrow> None
           | Some (cs, lg1, d1) \<Rightarrow>
               (case reactions_phase linkedin_username d1 of
                  None \<Rightarrow> None
                | Some (rs, lg2, d2) \<Rightarrow> Some (Activities cs rs, lg1 @ lg2, d2))))"

section \<open>The saved posts\<close>

text \<open>
  The values \<^verbatim>\<open>json.load\<close> gives. \<^verbatim>\<open>fetch_and_save_linkedin_posts\<close> writes a list of
  dictionaries, so a parsed data file is a list of posts, each a dictionary from keys to
  values. Strings are lists of 8-bit characters; numbers are the integers.
\<close>

datatype json =
    JNull
  | JBool bool
  | JNum int
  | JStr string
  | JArray "json list"
  | JObject "(string \<times> json) list"

type_synonym post = "string \<rightharpoonup> json"

text \<open>The file \<^verbatim>\<open>linkedin_posts.json\<close>: absent, not parsable, or parsed.\<close>

datatype data_file = NoFile | Corrupt | Saved "post list"

text \<open>\<^verbatim>\<open>dict.get(key, default)\<close>\<close>

definition dict_get :: "('k \<rightharpoonup> 'v) \<Rightarrow> 'k \<Rightarrow> 'v \<Rightarrow> 'v" where
  "dict_get m k dflt = (case m k of None \<Rightarrow> dflt | Some v \<Rightarrow> v)"

text \<open>
  \<^verbatim>\<open>str.lower\<close> and \<^verbatim>\<open>str.upper\<close>. A character stands for the code point of its
  number, so a string holds code points below 256. \<^verbatim>\<open>str.lower\<close> stays in that range:
  it moves the letters A to Z and the letters at 192 to 222, the multiplication sign at
  215 apart, up by 32. \<^verbatim>\<open>str.upper\<close> does not: the micro sign (181) becomes code point
  924, the sharp s (223) becomes two letters S, and the y with diaeresis (255) becomes
  code point 376; so its result is a list of code points.
\<close>

definition lower_char :: "char \<Rightarrow> char" where
  "lower_char c =
     (let n = (of_char c :: nat) in
      if (65 \<le> n \<and> n \<le> 90) \<or> (192 \<le> n \<and> n \<le> 222 \<and> n \<noteq> 215)
      then char_of (n + 32) else c)"

definition lower :: "string \<Rightarrow> string" where
  "lower s = map lower_char s"

definition code_points :: "string \<Rightarrow> nat list" where
  "code_points s = map of_char s"

definition upper_points :: "char \<Rightarrow> nat list" where
  "upper_points c =
     (let n = (of_char c :: nat) in
      if (97 \<le> n \<and> n \<le> 122) \<or> (224 \<le> n \<and> n \<le> 254 \<and> n \<noteq> 247) then [n - 32]
      else if n = 181 then [924]
      else if n = 223 then [83, 83]
      else if n = 255 then [376]
      else [n])"

definition upper :: "string \<Rightarrow> nat list" where
  "upper s = concat (map upper_points s)"

text \<open>\<^verbatim>\<open>value.lower()\<close> on a value read from a dictionary: only strings have the
  method.\<close>

definition json_lower :: "json \<Rightarrow> exn + string" where
  "json_lower v = (case v of JStr s \<Rightarrow> Inr (lower s) | _ \<Rightarrow> Inl AttributeError)"

datatype search_response =
    NoData
  | SearchResult (result_keywords: "string list") (result_mode: string)
      (total_results: nat) (result_posts: "post list") (has_more: bool)

text \<open>The \<^verbatim>\<open>for post in posts\<close> loop of \<^verbatim>\<open>search_posts\<close> (lines 120 to 128).\<close>

fun search_loop :: "post list \<Rightarrow> string list \<Rightarrow> string \<Rightarrow> post list \<Rightarrow> exn + post list" where
  "search_loop [] keywords mode filtered_posts = Inr filtered_posts"
| "search_loop (post # posts) keywords mode filtered_posts =
     (case json_lower (dict_get post ''Text'' (JStr [])) of
        Inl e \<Rightarrow> Inl e
      | Inr text \<Rightarrow>
          (if upper mode = code_points ''AND'' then
             (if list_all (\<lambda>keyword. str_in (lower keyword) text) keywords
              then search_loop posts keywords mode (filtered_posts @ [post])
              else search_loop posts keywords mode filtered_posts)
           else
             (if list_ex (\<lambda>keyword. str_in (lower keyword) text) keywords
              then search_loop posts keywords mode (filtered_posts @ [post])
              else search_loop posts keywords mode filtered_posts)))"

definition search_posts :: "data_file \<Rightarrow> string list \<Rightarrow> string \<Rightarrow> exn + search_response" where
  "search_posts file keywords mode =
     (case file of
        NoFile \<Rightarrow> Inr NoData
      | Corrupt \<Rightarrow> Inl JSONDecodeError
      | Saved posts \<Rightarrow>
          (case search_loop posts keywords mode [] of
             Inl e \<Rightarrow> Inl e
           | Inr filtered_posts \<Rightarrow>
               Inr (SearchResult keywords mode (length filtered_posts)
                      (take 5 filtered_posts) (length filtered_posts > 5))))"

text \<open>A post whose \<^verbatim>\<open>Text\<close>, when present, is a string.\<close>

definition text_is_string :: "post \<Rightarrow> bool" where
  "text_is_string post =
     (case post ''Text'' of None \<Rightarrow> True | Some (JStr s) \<Rightarrow> True | Some _ \<Rightarrow> False)"

subsection \<open>Dates\<close>

text \<open>
  \<^verbatim>\<open>datetime.strptime(s, "%Y-%m-%d")\<close>. The library matches the string against the
  regular expression of the format, \<^verbatim>\<open>(\d\d\d\d)-(1[0-2]|0[1-9]|[1-9])-(3[01]|[12]\d|0[1-9]|[1-9]| [1-9])\<close>,
  takes the first match, raises \<open>ValueError\<close> when there is none or when it does not
  reach the end of the string, and then builds the date, which raises \<open>ValueError\<close>
  for a year or day out of range. Each piece of the expression gives its matches in the
  order in which the matcher tries them.
\<close>

definition digit :: "char \<Rightarrow> nat option" where
  "digit c = map_of (zip ''0123456789'' [0, 1, 2, 3, 4, 5, 6, 7, 8, 9]) c"

fun re_literal :: "char \<Rightarrow> string \<Rightarrow> string list" where
  "re_literal c [] = []"
| "re_literal c (x # rest) = (if x = c then [rest] else [])"

text \<open>Two characters, the first in \<open>firsts\<close> and the second in \<open>seconds\<close>, read as
  a two-digit number (a space counts as no digit).\<close>

fun re_pair :: "string \<Rightarrow> string \<Rightarrow> string \<Rightarrow> (nat \<times> string) list" where
  "re_pair firsts seconds (a # b # rest) =
     (if a \<in> set firsts \<and> b \<in> set seconds
      then [(10 * (case digit a of Some x \<Rightarrow> x | None \<Rightarrow> 0)
               + (case digit b of Some y \<Rightarrow> y | None \<Rightarrow> 0), rest)]
      else [])"
| "re_pair firsts seconds s = []"

fun re_single :: "string \<Rightarrow> string \<Rightarrow> (nat \<times> string) list" where
  "re_single chars (a # rest) =
     (if a \<in> set chars then [(case digit a of Some x \<Rightarrow> x | None \<Rightarrow> 0, rest)] else [])"
| "re_single chars [] = []"

fun re_year :: "string \<Rightarrow> (nat \<times> string) list" where
  "re_year (a # b # c # d # rest) =
     (case (digit a, digit b, digit c, digit d) of
        (Some w, Some x, Some y, Some z) \<Rightarrow> [(1000 * w + 100 * x + 10 * y + z, rest)]
      | _ \<Rightarrow> [])"
| "re_year s = []"

definition re_month :: "string \<Rightarrow> (nat \<times> string) list" where
  "re_month s =
     re_pair ''1'' ''012'' s @ re_pair ''0'' ''123456789'' s @ re_single ''123456789'' s"

definition re_day :: "string \<Rightarrow> (nat \<times> string) list" where
  "re_day s =
     re_pair ''3'' ''01'' s @ re_pair ''12'' ''0123456789'' s @ re_pair ''0'' ''123456789'' s
       @ re_single ''123456789'' s @ re_pair '' '' ''123456789'' s"

definition re_ymd :: "string \<Rightarrow> ((nat \<times> nat \<times> nat) \<times> string) list" where
  "re_ymd s =
     concat (map (\<lambda>(y, r1).
       concat (map (\<lambda>r2.
         concat (map (\<lambda>(m, r3).
           concat (map (\<lambda>r4.
             map (\<lambda>(d, r5). ((y, m, d), r5)) (re_day r4))
           (re_literal CHR ''-'' r3)))
         (re_month r2)))
       (re_literal CHR ''-'' r1)))
     (re_year s))"

definition is_leap :: "nat \<Rightarrow> bool" where
  "is_leap y = (y mod 4 = 0 \<and> (y mod 100 \<noteq> 0 \<or> y mod 400 = 0))"

definition days_in_month :: "nat \<Rightarrow> nat \<Rightarrow> nat" where
  "days_in_month y m =
     (if m = 2 then (if is_leap y then 29 else 28)
      else if m \<in> {4, 6, 9, 11} then 30 else 31)"

type_synonym date = "nat \<times> nat \<times> nat"

definition strptime :: "string \<Rightarrow> exn + date" where
  "strptime s =
     (case re_ymd s of
        [] \<Rightarrow> Inl ValueError
      | ((y, m, d), rest) # _ \<Rightarrow>
          if rest \<noteq> [] then Inl ValueError
          else if 1 \<le> y \<and> 1 \<le> m \<and> m \<le> 12 \<and> 1 \<le> d \<and> d \<le> days_in_month y m
            then Inr (y, m, d)
            else Inl ValueError)"

text \<open>The order of \<^verbatim>\<open>datetime\<close> values without a time of day.\<close>

fun date_le :: "date \<Rightarrow> date \<Rightarrow> bool" where
  "date_le (y1, m1, d1) (y2, m2, d2) =
     (y1 < y2 \<or> (y1 = y2 \<and> (m1 < m2 \<or> (m1 = m2 \<and> d1 \<le> d2))))"

text \<open>\<^verbatim>\<open>datetime.strptime(post["Posted Date"], "%Y-%m-%d")\<close>\<close>

definition posted_date :: "post \<Rightarrow> exn + date" where
  "posted_date post =
     (case post ''Posted Date'' of
        None \<Rightarrow> Inl KeyError
      | Some (JStr s) \<Rightarrow> strptime s
      | Some _ \<Rightarrow> Inl TypeError)"

text \<open>The list comprehension of line 187: the first post whose date does not parse ends
  it with the exception.\<close>

fun posts_between :: "post list \<Rightarrow> date \<Rightarrow> date \<Rightarrow> exn + post list" where
  "posts_between [] start_dt end_dt = Inr []"
| "posts_between (post # posts) start_dt end_dt =
     (case posted_date post of
        Inl e \<Rightarrow> Inl e
      | Inr dt \<Rightarrow>
          (case posts_between posts start_dt end_dt of
             Inl e \<Rightarrow> Inl e
           | Inr rest \<Rightarrow>
               Inr (if date_le start_dt dt \<and> date_le dt end_dt then post # rest else rest)))"

datatype date_response =
    NoDataForDates
  | InvalidDateFormat
  | DateResult (result_start: string) (result_end: string) (date_total: nat)
      (date_posts: "post list")

definition get_posts_by_date :: "data_file \<Rightarrow> string \<Rightarrow> string \<Rightarrow> exn + date_response" where
  "get_posts_by_date file start_date end_date =
     (case file of
        NoFile \<Rightarrow> Inr NoDataForDates
      | Corrupt \<Rightarrow> Inl JSONDecodeError
      | Saved posts \<Rightarrow>
          (case and_then (strptime start_date) (\<lambda>start_dt.
                  and_then (strptime end_date) (\<lambda>end_dt. Inr (start_dt, end_dt))) of
             Inl e \<Rightarrow> if e = ValueError then Inr InvalidDateFormat else Inl e
           | Inr (start_dt, end_dt) \<Rightarrow>
               (case posts_between posts start_dt end_dt of
                  Inl e \<Rightarrow> Inl e
                | Inr filtered_posts \<Rightarrow>
                    Inr (DateResult start_date end_date (length filtered_posts)
                           filtered_posts))))"

subsection \<open>What the fetch stores as the date\<close>

text \<open>\<^verbatim>\<open>str.split(sep)\<close> with a one-character separator: every occurrence splits, and
  the result is never empty.\<close>

fun split_on :: "char \<Rightarrow> string \<Rightarrow> string list" where
  "split_on sep [] = [[]]"
| "split_on sep (c # cs) =
     (if c = sep then [] # split_on sep cs
      else (case split_on sep cs of [] \<Rightarrow> [[c]] | w # ws \<Rightarrow> (c # w) # ws))"

text \<open>Line 59 of \<^verbatim>\<open>fetch_and_save_linkedin_posts\<close>:
  \<^verbatim>\<open>post.get("posted", "").split(" ")[0]\<close> on a post of the API's answer.\<close>

definition stored_posted_date :: "post \<Rightarrow> exn + json" where
  "stored_posted_date api_post =
     (case dict_get api_post ''posted'' (JStr []) of
        JStr s \<Rightarrow>
          (case split_on CHR '' '' s of [] \<Rightarrow> Inl IndexError | w # _ \<Rightarrow> Inr (JStr w))
      | _ \<Rightarrow> Inl AttributeError)"

text \<open>Line 56 of \<^verbatim>\<open>fetch_and_save_linkedin_posts\<close>: what is stored under
  \<^verbatim>\<open>Text\<close>, \<^verbatim>\<open>post.get("text", "")\<close>.\<close>

definition stored_text :: "post \<Rightarrow> json" where
  "stored_text api_post = dict_get api_post ''text'' (JStr [])"

section \<open>Example pages\<close>

text \<open>Small rendered pages on which the definitions above are run.\<close>

definition leaf :: "string \<Rightarrow> string \<Rightarrow> string \<Rightarrow> element" where
  "leaf t c x = Element t [c] x []"

definition comment_entity :: "string \<Rightarrow> string \<Rightarrow> element" where
  "comment_entity c t =
     Element ''article'' [''comments-comment-entity''] []
       [leaf ''span'' ''comments-comment-item__main-content'' c,
        leaf ''time'' ''comments-comment-meta__data'' t]"

definition reply_entity :: "string \<Rightarrow> string \<Rightarrow> element" where
  "reply_entity c t =
     Element ''article'' [''comments-comment-entity'', ''comments-comment-entity--reply''] []
       [leaf ''span'' ''comments-comment-item__main-content'' c,
        leaf ''time'' ''comments-comment-meta__data'' t]"

text \<open>A direct comment of the page's owner on a post of \<open>author\<close>.\<close>

definition direct_item :: "string \<Rightarrow> string \<Rightarrow> string \<Rightarrow> string \<Rightarrow> element" where
  "direct_item author content c t =
     Element ''div'' [''feed-shared-update-v2''] []
       [leaf ''span'' ''update-components-actor__title'' author,
        leaf ''div'' ''update-components-text'' content,
        comment_entity c t]"

text \<open>The same item without the actor title.\<close>

definition untitled_item :: "string \<Rightarrow> string \<Rightarrow> string \<Rightarrow> element" where
  "untitled_item content c t =
     Element ''div'' [''feed-shared-update-v2''] []
       [leaf ''div'' ''update-components-text'' content,
        comment_entity c t]"

text \<open>An item with its actor title and text but no comment entity.\<close>

definition uncommented_item :: "string \<Rightarrow> string \<Rightarrow> element" where
  "uncommented_item author content =
     Element ''div'' [''feed-shared-update-v2''] []
       [leaf ''span'' ''update-components-actor__title'' author,
        leaf ''div'' ''update-components-text'' content]"

text \<open>A reply: the header says so, and the item holds the original comment and the
  reply.\<close>

definition reply_item ::
  "string \<Rightarrow> string \<Rightarrow> string \<Rightarrow> string \<Rightarrow> string \<Rightarrow> element" where
  "reply_item author content orig c t =
     Element ''div'' [''feed-shared-update-v2''] []
       [leaf ''span'' ''update-components-header__text-view'' ''Eve replied to a comment'',
        leaf ''span'' ''update-components-actor__title'' author,
        leaf ''div'' ''update-components-text'' content,
        comment_entity orig ''1w'',
        reply_entity c t]"

text \<open>An item of the reactions feed; \<open>label\<close> is the reaction header when present.\<close>

definition reaction_item :: "string \<Rightarrow> string \<Rightarrow> string option \<Rightarrow> string \<Rightarrow> element" where
  "reaction_item author content label t =
     Element ''div'' [''feed-shared-update-v2''] []
       ((case label of
           None \<Rightarrow> []
         | Some l \<Rightarrow> [leaf ''span'' ''update-components-header__text-view'' l])
        @ [leaf ''span'' ''update-components-actor__title'' author,
           leaf ''span'' ''update-components-actor__sub-description'' t,
           leaf ''div'' ''update-components-text'' content])"

definition page_with :: "element list \<Rightarrow> element" where
  "page_with items =
     Element ''html'' [] []
       [Element ''div'' [''scaffold-finite-scroll__content''] [] items]"

text \<open>A page that never changes, and a session that serves one page at every URL.\<close>

definition static_page :: "element \<Rightarrow> page" where
  "static_page root =
     \<lparr>height_after = (\<lambda>k. 1000), dom_after = (\<lambda>k. root), appears_at = Some 0\<rparr>"

definition driver_on :: "page \<Rightarrow> driver" where
  "driver_on p =
     \<lparr>session_error = None, site = (\<lambda>url. Inr p), current = p, scrolls = 0,
      scroll_y = 0, slept = 0, visited = []\<rparr>"

definition reply_and_direct :: driver where
  "reply_and_direct =
     driver_on (static_page (page_with
       [reply_item ''Ann'' ''p1'' ''first'' ''second'' ''2d'',
        direct_item ''Bob'' ''p2'' ''third'' ''3d'']))"

definition ann_reaction :: element where
  "ann_reaction = reaction_item ''Ann'' ''p1'' (Some ''Eve likes this'') ''1d''"

definition bob_unlabelled :: element where
  "bob_unlabelled = reaction_item ''Bob'' ''p2'' None ''2d''"

definition bob_reaction :: element where
  "bob_reaction = reaction_item ''Bob'' ''p2'' (Some ''Eve celebrates this'') ''2d''"

definition cy_reaction :: element where
  "cy_reaction = reaction_item ''Cy'' ''p3'' (Some ''Eve likes this'') ''3d''"

definition reactions_with_unlabelled :: driver where
  "reactions_with_unlabelled =
     driver_on (static_page (page_with [ann_reaction, bob_unlabelled, cy_reaction]))"

text \<open>A reaction whose label element has an empty text, and pages of twenty-one
  reactions around a given item.\<close>

definition blank_reaction :: element where
  "blank_reaction = reaction_item ''Dee'' ''p4'' (Some []) ''4d''"

definition reactions_with_blank :: driver where
  "reactions_with_blank = driver_on (static_page (page_with [blank_reaction]))"

definition twenty_one_reactions :: "element \<Rightarrow> driver" where
  "twenty_one_reactions middle =
     driver_on (static_page (page_with
       (replicate 10 ann_reaction @ middle # replicate 10 cy_reaction)))"

text \<open>A page that grows on the first two scroll actions and shows no feed item.\<close>

definition growing_page :: page where
  "growing_page =
     \<lparr>height_after = (\<lambda>k. 1000 + 500 * int (min k 2)),
      dom_after = (\<lambda>k. page_with []), appears_at = Some 0\<rparr>"

text \<open>A page that gains one feed item and grows with every scroll action.\<close>

definition filling_page :: page where
  "filling_page =
     \<lparr>height_after = (\<lambda>k. 1000 + 500 * int k),
      dom_after = (\<lambda>k. page_with (replicate k (direct_item ''Ann'' ''p'' ''c'' ''1d''))),
      appears_at = Some 0\<rparr>"

text \<open>Pages of five items with one malformed item, and the record of a direct
  comment.\<close>

definition first_untitled :: driver where
  "first_untitled =
     driver_on (static_page (page_with
       [untitled_item ''p1'' ''c1'' ''1d'',
        direct_item ''Ann'' ''p2'' ''c2'' ''2d'',
        direct_item ''Bob'' ''p3'' ''c3'' ''3d'',
        direct_item ''Cy'' ''p4'' ''c4'' ''4d'',
        direct_item ''Di'' ''p5'' ''c5'' ''5d'']))"

definition third_untitled :: driver where
  "third_untitled =
     driver_on (static_page (page_with
       [direct_item ''Ann'' ''p1'' ''c1'' ''1d'',
        direct_item ''Bob'' ''p2'' ''c2'' ''2d'',
        untitled_item ''p3'' ''c3'' ''3d'',
        direct_item ''Cy'' ''p4'' ''c4'' ''4d'',
        direct_item ''Di'' ''p5'' ''c5'' ''5d'']))"

definition first_uncommented :: driver where
  "first_uncommented =
     driver_on (static_page (page_with
       [uncommented_item ''Zed'' ''p1'',
        direct_item ''Ann'' ''p2'' ''c2'' ''2d'',
        direct_item ''Bob'' ''p3'' ''c3'' ''3d'',
        direct_item ''Cy'' ''p4'' ''c4'' ''4d'',
        direct_item ''Di'' ''p5'' ''c5'' ''5d'']))"

definition direct_record :: "string \<Rightarrow> string \<Rightarrow> string \<Rightarrow> string \<Rightarrow> comment_data" where
  "direct_record author content c t =
     \<lparr>post_author = author, post_content = content, is_reply = False,
      original_comment = None, comment = c, timestamp = t\<rparr>"



text \<open>Saved posts.\<close>

definition text_post :: "string \<Rightarrow> post" where
  "text_post s = [''Text'' \<mapsto> JStr s]"

definition six_posts :: "post list" where
  "six_posts = map text_post [''one'', ''two'', ''three'', ''four'', ''five'', ''six'']"

definition null_text_post :: post where
  "null_text_post = [''Text'' \<mapsto> stored_text [''text'' \<mapsto> JNull]]"

definition accented_post :: post where
  "accented_post = text_post (''caf'' @ [char_of (233::nat)])"

definition undated_post :: post where
  "undated_post = [''Text'' \<mapsto> JStr ''hello'', ''Posted Date'' \<mapsto> JStr []]"

definition dated_post :: post where
  "dated_post = [''Text'' \<mapsto> JStr ''hello'', ''Posted Date'' \<mapsto> JStr ''2024-03-05'']"

section \<open>Properties of the item classifier\<close>

lemma str_in_iff: "str_in n h \<longleftrightarrow> (\<exists>p s. h = p @ n @ s)"
proof (induction h)
  case Nil
  then show ?case by auto
next
  case (Cons c cs)
  show ?case
  proof
    assume "str_in n (c # cs)"
    then consider "prefix n (c # cs)" | "str_in n cs" by auto
    then show "\<exists>p s. c # cs = p @ n @ s"
    proof cases
      case 1
      then obtain s where "c # cs = n @ s" by (auto simp: prefix_def)
      then have "c # cs = [] @ n @ s" by simp
      then show ?thesis by blast
    next
      case 2
      with Cons obtain p s where "cs = p @ n @ s" by blast
      then have "c # cs = (c # p) @ n @ s" by simp
      then show ?thesis by blast
    qed
  next
    assume "\<exists>p s. c # cs = p @ n @ s"
    then obtain p s where ps: "c # cs = p @ n @ s" by blast
    show "str_in n (c # cs)"
    proof (cases p)
      case Nil
      with ps have "prefix n (c # cs)" by (simp add: prefix_def)
      then show ?thesis by simp
    next
      case (Cons a p')
      with ps have "cs = p' @ n @ s" by simp
      with Cons.IH have "str_in n cs" by blast
      then show ?thesis by simp
    qed
  qed
qed

lemma and_then_Inr: "and_then r f = Inr y \<longleftrightarrow> (\<exists>x. r = Inr x \<and> f x = Inr y)"
  by (cases r) (auto simp: and_then_def)

lemma and_then_Inl:
  "and_then r f = Inl e \<longleftrightarrow> (r = Inl e \<or> (\<exists>x. r = Inr x \<and> f x = Inl e))"
  by (cases r) (auto simp: and_then_def)

text \<open>
  C6. Classification of a feed item never raises: it always returns a truth value. The
  item is a reply exactly when the header text element is found and its text has
  \<^verbatim>\<open>replied to\<close> as a substring; when the lookup of the header text element fails, the
  item is classified as direct.
\<close>

theorem classify_total:
  "classify item =
     Inr (\<exists>h p s. find_element item HEADER_TEXT = Inr h
            \<and> text_of h = p @ ''replied to'' @ s)
   \<and> (case find_element item HEADER_TEXT of
         Inl e \<Rightarrow> classify item = Inr False
       | Inr h \<Rightarrow> classify item = Inr (str_in ''replied to'' (text_of h)))"
  by (cases "find_element item HEADER_TEXT")
     (auto simp: classify_def classify_attempt_def and_then_def str_in_iff)

section \<open>Properties of the comment extractor\<close>

lemma comment_fields_reply:
  "comment_fields item reply a = Inr r \<Longrightarrow>
     is_reply r = reply \<and> (reply \<longrightarrow> original_comment r \<noteq> None) \<and> (\<not> reply \<longrightarrow> original_comment r = None)"
  by (auto simp: comment_fields_def Let_def and_then_Inr split: if_splits)

lemma parse_comment_reply:
  "parse_comment item reply v = (v', Inr r) \<Longrightarrow>
     is_reply r = reply \<and> (reply \<longrightarrow> original_comment r \<noteq> None) \<and> (\<not> reply \<longrightarrow> original_comment r = None)"
  by (auto simp: parse_comment_def split: sum.splits dest: comment_fields_reply)

lemma parse_comment_inv:
  "parse_comment item reply v = (v', Inr r) \<Longrightarrow> reply_invariant r"
  by (auto simp: reply_invariant_def dest!: parse_comment_reply)

lemma scrape_comments_loop_invariant:
  "list_all reply_invariant cs \<Longrightarrow>
   list_all reply_invariant (fst (scrape_comments_loop items cs v lg))"
proof (induction items arbitrary: cs v lg)
  case Nil
  then show ?case by simp
next
  case (Cons item items)
  show ?case
  proof (cases "int (length cs) \<ge> MAX_COMMENTS")
    case True
    then show ?thesis using Cons.prems by simp
  next
    case False
    show ?thesis
    proof (cases "classify item")
      case (Inl e)
      then show ?thesis using False Cons.prems by simp
    next
      case (Inr reply)
      obtain v' res where p: "parse_comment item reply v = (v', res)"
        by (cases "parse_comment item reply v")
      show ?thesis
      proof (cases res)
        case (Inl e)
        then show ?thesis
          using False Inr p Cons.prems by (cases v') (simp_all add: Cons.IH)
      next
        case r: (Inr r)
        then have "reply_invariant r" using p parse_comment_inv by blast
        then have "list_all reply_invariant (cs @ [r])" using Cons.prems by simp
        then show ?thesis
          using False Inr p r by (simp add: Cons.IH)
      qed
    qed
  qed
qed

lemma scrape_comments_loop_length:
  "int (length cs) \<le> MAX_COMMENTS \<Longrightarrow>
   int (length (fst (scrape_comments_loop items cs v lg))) \<le> MAX_COMMENTS"
proof (induction items arbitrary: cs v lg)
  case Nil
  then show ?case by simp
next
  case (Cons item items)
  show ?case
  proof (cases "int (length cs) \<ge> MAX_COMMENTS")
    case True
    then show ?thesis using Cons.prems by simp
  next
    case False
    then have step: "int (length (cs @ [r])) \<le> MAX_COMMENTS" for r by simp
    show ?thesis
    proof (cases "classify item")
      case (Inl e)
      then show ?thesis using False Cons.prems by simp
    next
      case (Inr reply)
      obtain v' res where p: "parse_comment item reply v = (v', res)"
        by (cases "parse_comment item reply v")
      show ?thesis
      proof (cases res)
        case (Inl e)
        then show ?thesis
          using False Inr p Cons.prems by (cases v') (simp_all add: Cons.IH)
      next
        case r: (Inr r)
        show ?thesis
          using False Inr p r Cons.IH [OF step] by simp
      qed
    qed
  qed
qed

lemma scrape_reactions_loop_length:
  "int (length rs) \<le> MAX_REACTIONS \<Longrightarrow>
   int (length (scrape_reactions_loop items rs)) \<le> MAX_REACTIONS"
proof (induction items arbitrary: rs)
  case Nil
  then show ?case by simp
next
  case (Cons item items)
  show ?case
  proof (cases "int (length rs) \<ge> MAX_REACTIONS")
    case True
    then show ?thesis using Cons.prems by simp
  next
    case False
    then have step: "int (length (rs @ [r])) \<le> MAX_REACTIONS" for r by simp
    show ?thesis
      using False Cons.IH [OF step] Cons.IH [OF Cons.prems]
      by (cases "parse_reaction item") simp_all
  qed
qed


text \<open>
  C2. Every record that \<^verbatim>\<open>_scrape_comments\<close> returns has an original comment when
  it is a reply, and none when it is not.
\<close>

theorem scrape_comments_reply_invariant:
  "\<forall>r \<in> set (fst (scrape_comments d)).
     (is_reply r \<longrightarrow> original_comment r \<noteq> None)
     \<and> (\<not> is_reply r \<longrightarrow> original_comment r = None)"
proof -
  have "list_all reply_invariant (fst (scrape_comments d))"
  proof (cases "driver_find_element d SCROLL_CONTENT")
    case (Inl e)
    then show ?thesis by (simp add: scrape_comments_def)
  next
    case (Inr comment_list)
    have "list_all reply_invariant
            (fst (scrape_comments_loop (find_elements comment_list FEED_ITEM) [] None []))"
      by (rule scrape_comments_loop_invariant) simp
    then show ?thesis
      using Inr by (auto simp: scrape_comments_def split: prod.splits option.splits)
  qed
  then show ?thesis
    by (auto simp: list_all_iff reply_invariant_def split: if_splits)
qed

lemma reply_and_direct_comments: "fst (scrape_comments reply_and_direct) =
     [\<lparr>post_author = ''Ann'', post_content = ''p1'', is_reply = True,
       original_comment = Some ''first'', comment = ''second'', timestamp = ''2d''\<rparr>,
      \<lparr>post_author = ''Bob'', post_content = ''p2'', is_reply = False,
       original_comment = None, comment = ''third'', timestamp = ''3d''\<rparr>]"
  by code_simp

theorem scrape_comments_reply_invariant_witness:
  "fst (scrape_comments reply_and_direct) =
     [\<lparr>post_author = ''Ann'', post_content = ''p1'', is_reply = True,
       original_comment = Some ''first'', comment = ''second'', timestamp = ''2d''\<rparr>,
      \<lparr>post_author = ''Bob'', post_content = ''p2'', is_reply = False,
       original_comment = None, comment = ''third'', timestamp = ''3d''\<rparr>]
   \<and> list_all (\<lambda>r. if is_reply r then original_comment r \<noteq> None else original_comment r = None)
        (fst (scrape_comments reply_and_direct))"
  using scrape_comments_reply_invariant [of reply_and_direct]
    reply_and_direct_comments
  by (simp add: list_all_iff)

text \<open>
  C4. Whatever the page shows, \<^verbatim>\<open>_scrape_comments\<close> returns at most
  \<^verbatim>\<open>MAX_COMMENTS\<close> = 20 records and \<^verbatim>\<open>_scrape_reactions\<close> at most
  \<^verbatim>\<open>MAX_REACTIONS\<close> = 20.
\<close>

theorem batch_bounds:
  "int (length (fst (scrape_comments d))) \<le> MAX_COMMENTS
   \<and> int (length (fst (scrape_reactions d))) \<le> MAX_REACTIONS
   \<and> MAX_COMMENTS = 20 \<and> MAX_REACTIONS = 20"
proof -
  have c: "int (length (fst (scrape_comments d))) \<le> MAX_COMMENTS"
  proof (cases "driver_find_element d SCROLL_CONTENT")
    case (Inl e)
    then show ?thesis by (simp add: scrape_comments_def MAX_COMMENTS_def)
  next
    case (Inr comment_list)
    have "int (length (fst (scrape_comments_loop (find_elements comment_list FEED_ITEM)
            [] None []))) \<le> MAX_COMMENTS"
      by (rule scrape_comments_loop_length) (simp add: MAX_COMMENTS_def)
    then show ?thesis
      using Inr by (auto simp: scrape_comments_def split: prod.splits option.splits)
  qed
  have r: "int (length (fst (scrape_reactions d))) \<le> MAX_REACTIONS"
  proof (cases "driver_find_element d SCROLL_CONTENT")
    case (Inl e)
    then show ?thesis by (simp add: scrape_reactions_def MAX_REACTIONS_def)
  next
    case (Inr reaction_list)
    have "int (length (scrape_reactions_loop (find_elements reaction_list FEED_ITEM) []))
            \<le> MAX_REACTIONS"
      by (rule scrape_reactions_loop_length) (simp add: MAX_REACTIONS_def)
    then show ?thesis
      using Inr by (simp add: scrape_reactions_def)
  qed
  show ?thesis using c r by (simp add: MAX_COMMENTS_def MAX_REACTIONS_def)
qed

section \<open>Properties of the reaction extractor\<close>

lemma scrape_reactions_loop_take:
  "int (length rs) \<le> MAX_REACTIONS \<Longrightarrow>
   scrape_reactions_loop items rs = take 20 (rs @ List.map_filter reaction_of items)"
proof (induction items arbitrary: rs)
  case Nil
  then show ?case by (simp add: MAX_REACTIONS_def List.map_filter_simps)
next
  case (Cons item items)
  show ?case
  proof (cases "int (length rs) \<ge> MAX_REACTIONS")
    case True
    then show ?thesis using Cons.prems by (simp add: MAX_REACTIONS_def)
  next
    case False
    then have step: "int (length (rs @ [r])) \<le> MAX_REACTIONS" for r by simp
    show ?thesis
      using False Cons.IH [OF step] Cons.IH [OF Cons.prems]
      by (cases "parse_reaction item") (simp_all add: reaction_of_def List.map_filter_simps)
  qed
qed

text \<open>The bound is reached as soon as twenty items give a record.\<close>

lemma scrape_reactions_loop_caps:
  assumes "20 \<le> length (List.map_filter reaction_of items)"
  shows "length (scrape_reactions_loop items []) = 20"
proof -
  have "int (length ([]::reaction_data list)) \<le> MAX_REACTIONS"
    by (simp add: MAX_REACTIONS_def)
  from scrape_reactions_loop_take [OF this] show ?thesis
    using assms by simp
qed

lemma parse_reaction_Inl:
  "isl (parse_reaction item) \<longleftrightarrow>
     isl (find_element item ACTOR_TITLE) \<or> isl (find_element item UPDATE_TEXT)
     \<or> isl (find_element item HEADER_TEXT) \<or> isl (find_element item ACTOR_SUB_DESCRIPTION)"
  by (auto simp: parse_reaction_def and_then_def split: sum.splits)

lemma parse_reaction_Inr:
  "parse_reaction item = Inr r \<longleftrightarrow>
     (\<exists>a c h t. find_element item ACTOR_TITLE = Inr a \<and> find_element item UPDATE_TEXT = Inr c
        \<and> find_element item HEADER_TEXT = Inr h \<and> find_element item ACTOR_SUB_DESCRIPTION = Inr t
        \<and> r = \<lparr>reaction_post_author = text_of a, reaction_post_content = text_of c,
                reaction = text_of h, reaction_timestamp = text_of t\<rparr>)"
  by (auto simp: parse_reaction_def and_then_def split: sum.splits)

lemma scrape_reactions_loop_full:
  "int (length rs) \<ge> MAX_REACTIONS \<Longrightarrow> scrape_reactions_loop items rs = rs"
  by (cases items) simp_all

lemma scrape_reactions_loop_skip:
  "isl (parse_reaction bad) \<Longrightarrow>
   scrape_reactions_loop (xs @ bad # ys) rs = scrape_reactions_loop (xs @ ys) rs"
proof (induction xs arbitrary: rs)
  case Nil
  then show ?case by (cases "parse_reaction bad") (simp_all add: scrape_reactions_loop_full)
next
  case (Cons x xs)
  then show ?case by (cases "parse_reaction x") simp_all
qed

lemma scrape_reactions_loop_set:
  "set (scrape_reactions_loop items rs) \<subseteq> set rs \<union> {r. \<exists>item \<in> set items. parse_reaction item = Inr r}"
proof (induction items arbitrary: rs)
  case Nil
  then show ?case by simp
next
  case (Cons item items)
  show ?case
  proof (cases "int (length rs) \<ge> MAX_REACTIONS")
    case True
    then show ?thesis by auto
  next
    case False
    show ?thesis
    proof (cases "parse_reaction item")
      case (Inl e)
      then show ?thesis using False Cons.IH [of rs] by auto
    next
      case (Inr r)
      then show ?thesis using False Cons.IH [of "rs @ [r]"] by auto
    qed
  qed
qed

lemma scrape_reactions_loop_length_drop:
  assumes good: "parse_reaction good = Inr r" and bad: "isl (parse_reaction bad)"
    and room: "length (scrape_reactions_loop (xs @ good # ys) []) < 20"
  shows "length (scrape_reactions_loop (xs @ good # ys) []) =
           Suc (length (scrape_reactions_loop (xs @ bad # ys) []))"
proof -
  have g: "reaction_of good = Some r" using good by (simp add: reaction_of_def)
  have b: "reaction_of bad = None" using bad by (cases "parse_reaction bad") (simp_all add: reaction_of_def)
  have e: "int (length ([]::reaction_data list)) \<le> MAX_REACTIONS" by (simp add: MAX_REACTIONS_def)
  show ?thesis
    using room unfolding scrape_reactions_loop_take [OF e]
    by (simp add: List.map_filter_def g b)
qed


lemma scrape_reactions_take:
  "scrape_reactions d =
     (case driver_find_element d SCROLL_CONTENT of
        Inl e \<Rightarrow> ([], [ReactionsListError e])
      | Inr reaction_list \<Rightarrow>
          (take 20 (List.map_filter reaction_of (find_elements reaction_list FEED_ITEM)), []))"
proof -
  have "int (length ([]::reaction_data list)) \<le> MAX_REACTIONS"
    by (simp add: MAX_REACTIONS_def)
  from scrape_reactions_loop_take [OF this] show ?thesis
    by (simp add: scrape_reactions_def split: sum.splits)
qed

lemma reaction_of_cases:
  "reaction_of item =
     (case (find_element item ACTOR_TITLE, find_element item UPDATE_TEXT,
            find_element item HEADER_TEXT, find_element item ACTOR_SUB_DESCRIPTION) of
        (Inr a, Inr c, Inr h, Inr t) \<Rightarrow>
          Some \<lparr>reaction_post_author = text_of a, reaction_post_content = text_of c,
                reaction = text_of h, reaction_timestamp = text_of t\<rparr>
      | _ \<Rightarrow> None)"
  by (simp add: reaction_of_def parse_reaction_def and_then_def split: sum.splits)

lemma scrape_reactions_loop_min:
  "length (scrape_reactions_loop items []) = min 20 (length (List.map_filter reaction_of items))"
proof -
  have "int (length ([]::reaction_data list)) \<le> MAX_REACTIONS"
    by (simp add: MAX_REACTIONS_def)
  from scrape_reactions_loop_take [OF this] show ?thesis by simp
qed

text \<open>
  C7, as the code has it. \<^verbatim>\<open>_scrape_reactions\<close> returns the first twenty of the
  records that the feed items of the content container give, in page order, where an
  item gives a record exactly when all four lookups (author, content, reaction label,
  timestamp) succeed, and the record then carries the texts of the four elements found,
  whatever they are. An item for which a lookup fails gives nothing and the loop goes
  on: the result is the one the batch without that item gives. With a well-formed item
  in its place the list is one record longer when the list with the malformed item has
  fewer than twenty records, and has twenty records otherwise.
\<close>

theorem scrape_reactions_atomic:
  "scrape_reactions d =
     (case driver_find_element d SCROLL_CONTENT of
        Inl e \<Rightarrow> ([], [ReactionsListError e])
      | Inr reaction_list \<Rightarrow>
          (take 20 (List.map_filter reaction_of (find_elements reaction_list FEED_ITEM)), []))
   \<and> reaction_of item =
       (case (find_element item ACTOR_TITLE, find_element item UPDATE_TEXT,
              find_element item HEADER_TEXT, find_element item ACTOR_SUB_DESCRIPTION) of
          (Inr a, Inr c, Inr h, Inr t) \<Rightarrow>
            Some \<lparr>reaction_post_author = text_of a, reaction_post_content = text_of c,
                  reaction = text_of h, reaction_timestamp = text_of t\<rparr>
        | _ \<Rightarrow> None)
   \<and> (isl (find_element bad ACTOR_TITLE) \<or> isl (find_element bad UPDATE_TEXT)
        \<or> isl (find_element bad HEADER_TEXT) \<or> isl (find_element bad ACTOR_SUB_DESCRIPTION)
      \<longrightarrow> reaction_of bad = None
          \<and> scrape_reactions_loop (xs @ bad # ys) rs = scrape_reactions_loop (xs @ ys) rs
          \<and> (parse_reaction good = Inr r
              \<longrightarrow> length (scrape_reactions_loop (xs @ good # ys) []) =
                    (if length (scrape_reactions_loop (xs @ bad # ys) []) < 20
                     then Suc (length (scrape_reactions_loop (xs @ bad # ys) []))
                     else 20)))"
proof (intro conjI impI)
  show "scrape_reactions d =
     (case driver_find_element d SCROLL_CONTENT of
        Inl e \<Rightarrow> ([], [ReactionsListError e])
      | Inr reaction_list \<Rightarrow>
          (take 20 (List.map_filter reaction_of (find_elements reaction_list FEED_ITEM)), []))"
    by (rule scrape_reactions_take)
  show "reaction_of item =
       (case (find_element item ACTOR_TITLE, find_element item UPDATE_TEXT,
              find_element item HEADER_TEXT, find_element item ACTOR_SUB_DESCRIPTION) of
          (Inr a, Inr c, Inr h, Inr t) \<Rightarrow>
            Some \<lparr>reaction_post_author = text_of a, reaction_post_content = text_of c,
                  reaction = text_of h, reaction_timestamp = text_of t\<rparr>
        | _ \<Rightarrow> None)"
    by (rule reaction_of_cases)
next
  assume "isl (find_element bad ACTOR_TITLE) \<or> isl (find_element bad UPDATE_TEXT)
        \<or> isl (find_element bad HEADER_TEXT) \<or> isl (find_element bad ACTOR_SUB_DESCRIPTION)"
  then have bad: "isl (parse_reaction bad)" by (simp add: parse_reaction_Inl)
  then show none: "reaction_of bad = None"
    by (cases "parse_reaction bad") (simp_all add: reaction_of_def)
  show "scrape_reactions_loop (xs @ bad # ys) rs = scrape_reactions_loop (xs @ ys) rs"
    using bad by (rule scrape_reactions_loop_skip)
  assume "parse_reaction good = Inr r"
  then have "reaction_of good = Some r" by (simp add: reaction_of_def)
  then show "length (scrape_reactions_loop (xs @ good # ys) []) =
                    (if length (scrape_reactions_loop (xs @ bad # ys) []) < 20
                     then Suc (length (scrape_reactions_loop (xs @ bad # ys) []))
                     else 20)"
    using none by (simp add: scrape_reactions_loop_min List.map_filter_def)
qed

lemma bob_unlabelled_header: "isl (find_element bob_unlabelled HEADER_TEXT)"
  by code_simp

lemma bob_reaction_parsed:
  "parse_reaction bob_reaction =
     Inr \<lparr>reaction_post_author = ''Bob'', reaction_post_content = ''p2'',
          reaction = ''Eve celebrates this'', reaction_timestamp = ''2d''\<rparr>"
  by code_simp

lemma three_reactions_length:
  "length (scrape_reactions_loop ([ann_reaction] @ bob_reaction # [cy_reaction]) []) = 3"
  by code_simp

lemma reactions_with_unlabelled_result:
  "fst (scrape_reactions reactions_with_unlabelled) =
     [\<lparr>reaction_post_author = ''Ann'', reaction_post_content = ''p1'',
       reaction = ''Eve likes this'', reaction_timestamp = ''1d''\<rparr>,
      \<lparr>reaction_post_author = ''Cy'', reaction_post_content = ''p3'',
       reaction = ''Eve likes this'', reaction_timestamp = ''3d''\<rparr>]"
  by code_simp

lemma twenty_one_labelled:
  "length (fst (scrape_reactions (twenty_one_reactions bob_reaction))) = 20"
  by code_simp

lemma twenty_one_unlabelled:
  "length (fst (scrape_reactions (twenty_one_reactions bob_unlabelled))) = 20"
  by code_simp

lemma reactions_with_blank_result:
  "fst (scrape_reactions reactions_with_blank) =
     [\<lparr>reaction_post_author = ''Dee'', reaction_post_content = ''p4'',
       reaction = [], reaction_timestamp = ''4d''\<rparr>]"
  by code_simp

theorem scrape_reactions_atomic_witness:
  "isl (find_element bob_unlabelled HEADER_TEXT)
   \<and> reaction_of bob_unlabelled = None
   \<and> scrape_reactions_loop ([ann_reaction] @ bob_unlabelled # [cy_reaction]) [] =
       scrape_reactions_loop ([ann_reaction] @ [cy_reaction]) []
   \<and> length (scrape_reactions_loop ([ann_reaction] @ bob_reaction # [cy_reaction]) []) = 3
   \<and> length (scrape_reactions_loop ([ann_reaction] @ bob_unlabelled # [cy_reaction]) []) = 2
   \<and> fst (scrape_reactions reactions_with_unlabelled) =
       [\<lparr>reaction_post_author = ''Ann'', reaction_post_content = ''p1'',
         reaction = ''Eve likes this'', reaction_timestamp = ''1d''\<rparr>,
        \<lparr>reaction_post_author = ''Cy'', reaction_post_content = ''p3'',
         reaction = ''Eve likes this'', reaction_timestamp = ''3d''\<rparr>]"
proof -
  let ?with_bad = "scrape_reactions_loop ([ann_reaction] @ bob_unlabelled # [cy_reaction]) []"
  let ?with_good = "scrape_reactions_loop ([ann_reaction] @ bob_reaction # [cy_reaction]) []"
  have fails: "isl (find_element bob_unlabelled ACTOR_TITLE)
      \<or> isl (find_element bob_unlabelled UPDATE_TEXT)
      \<or> isl (find_element bob_unlabelled HEADER_TEXT)
      \<or> isl (find_element bob_unlabelled ACTOR_SUB_DESCRIPTION)"
    using bob_unlabelled_header by blast
  note atomic = scrape_reactions_atomic [of reactions_with_unlabelled _ bob_unlabelled
      "[ann_reaction]" "[cy_reaction]" "[]" bob_reaction]
  have none: "reaction_of bob_unlabelled = None"
    using atomic fails by blast
  have skipped: "?with_bad = scrape_reactions_loop ([ann_reaction] @ [cy_reaction]) []"
    using atomic fails by blast
  have cmp: "length ?with_good =
      (if length ?with_bad < 20 then Suc (length ?with_bad) else 20)"
    using atomic fails bob_reaction_parsed by blast
  have two: "length ?with_bad = 2"
  proof (cases "length ?with_bad < 20")
    case True
    then have "length ?with_good = Suc (length ?with_bad)" using cmp by presburger
    then show ?thesis using three_reactions_length by linarith
  next
    case False
    then have "length ?with_good = 20" using cmp by presburger
    then show ?thesis using three_reactions_length by linarith
  qed
  show ?thesis
    using bob_unlabelled_header none skipped three_reactions_length two
      reactions_with_unlabelled_result by blast
qed

text \<open>
  C7 as stated fails in two places. With ten well-formed items before and ten after,
  the list has twenty records whether the item in the middle has its reaction label or
  not, so losing the label does not shorten the list. And an item whose label element
  is there with an empty text gives a record with an empty reaction field.
\<close>

theorem scrape_reactions_atomic_counterexample:
  "isl (find_element bob_unlabelled HEADER_TEXT)
   \<and> parse_reaction bob_reaction =
       Inr \<lparr>reaction_post_author = ''Bob'', reaction_post_content = ''p2'',
            reaction = ''Eve celebrates this'', reaction_timestamp = ''2d''\<rparr>
   \<and> length (fst (scrape_reactions (twenty_one_reactions bob_reaction))) = 20
   \<and> length (fst (scrape_reactions (twenty_one_reactions bob_unlabelled))) = 20
   \<and> fst (scrape_reactions reactions_with_blank) =
       [\<lparr>reaction_post_author = ''Dee'', reaction_post_content = ''p4'',
         reaction = [], reaction_timestamp = ''4d''\<rparr>]"
  using bob_unlabelled_header bob_reaction_parsed twenty_one_labelled twenty_one_unlabelled
    reactions_with_blank_result
  by blast

section \<open>Properties of the scroll loader\<close>

lemmas scroll_loop_induct = scroll_loop.raw_induct [rotated 1, consumes 1, case_names step]

lemma settle_simps:
  "current (sleep 2 (scroll_to_bottom d)) = current d"
  "scrolls (sleep 2 (scroll_to_bottom d)) = Suc (scrolls d)"
  "slept (sleep 2 (scroll_to_bottom d)) = slept d + 2"
  "scroll_height (sleep 2 (scroll_to_bottom d)) = height_after (current d) (Suc (scrolls d))"
  by (simp_all add: sleep_def scroll_to_bottom_def scroll_height_def)

lemma scroll_loop_terminates:
  "height_after (current d) (Suc (scrolls d + n)) = height_after (current d) (scrolls d + n) \<Longrightarrow>
   last_height = scroll_height d \<Longrightarrow>
   \<exists>d'. scroll_loop max_items last_height d = Some d' \<and> scrolls d' \<le> scrolls d + n + 1"
proof (induction n arbitrary: d last_height)
  case 0
  then show ?case
    by (subst scroll_loop.simps) (simp add: settle_simps scroll_height_def)
next
  case (Suc n)
  let ?d1 = "sleep 2 (scroll_to_bottom d)"
  have "height_after (current ?d1) (Suc (scrolls ?d1 + n)) =
        height_after (current ?d1) (scrolls ?d1 + n)"
    using Suc.prems(1) by (simp add: settle_simps)
  from Suc.IH [OF this refl]
  obtain d' where "scroll_loop max_items (scroll_height ?d1) ?d1 = Some d'"
    and "scrolls d' \<le> scrolls ?d1 + n + 1" by blast
  then show ?case
    by (subst scroll_loop.simps) (simp add: settle_simps)
qed

lemma scroll_loop_stops:
  "scroll_loop max_items last_height d = Some d' \<Longrightarrow>
   last_height = scroll_height d \<Longrightarrow>
   current d' = current d \<and> scrolls d \<le> scrolls d'
   \<and> (int (length (driver_find_elements d' FEED_ITEM)) \<ge> max_items
      \<or> (scrolls d < scrolls d'
          \<and> scroll_height d' = height_after (current d) (scrolls d' - 1)))"
proof (induction max_items last_height d d' rule: scroll_loop_induct)
  case (step scroll_loop max_items last_height d d')
  let ?d1 = "sleep 2 (scroll_to_bottom d)"
  show ?case
  proof (cases "int (length (driver_find_elements d FEED_ITEM)) \<ge> max_items")
    case True
    then show ?thesis using step.hyps by simp
  next
    case False
    show ?thesis
    proof (cases "scroll_height ?d1 = last_height")
      case True
      then have "d' = ?d1" using False step.hyps by simp
      then show ?thesis using True step.prems by (simp add: settle_simps scroll_height_def)
    next
      case ne: False
      then have "scroll_loop max_items (scroll_height ?d1) ?d1 = Some d'"
        using False step.hyps by simp
      from step.IH [OF this refl] show ?thesis
        by (auto simp: settle_simps)
    qed
  qed
qed



lemma scroll_loop_reaches:
  "int (length (driver_find_elements (d\<lparr>scrolls := scrolls d + K\<rparr>) FEED_ITEM)) \<ge> max_items \<Longrightarrow>
   \<exists>d'. scroll_loop max_items last_height d = Some d' \<and> scrolls d' \<le> scrolls d + K"
proof (induction K arbitrary: d last_height)
  case 0
  then show ?case
    by (subst scroll_loop.simps) simp
next
  case (Suc K)
  let ?d1 = "sleep 2 (scroll_to_bottom d)"
  have "driver_find_elements (?d1\<lparr>scrolls := scrolls ?d1 + K\<rparr>) FEED_ITEM =
        driver_find_elements (d\<lparr>scrolls := scrolls d + Suc K\<rparr>) FEED_ITEM"
    by (simp add: driver_find_elements_def document_def sleep_def scroll_to_bottom_def)
  then have "int (length (driver_find_elements (?d1\<lparr>scrolls := scrolls ?d1 + K\<rparr>) FEED_ITEM))
      \<ge> max_items"
    using Suc.prems by simp
  from Suc.IH [OF this]
  obtain d' where "scroll_loop max_items (scroll_height ?d1) ?d1 = Some d'"
    and "scrolls d' \<le> scrolls ?d1 + K" by blast
  then show ?case
    by (subst scroll_loop.simps) (simp add: settle_simps)
qed

text \<open>
  C5. When the height measured after scroll action \<open>N + 1\<close> equals the height measured
  after scroll action \<open>N\<close> (counted from the state at entry), \<^verbatim>\<open>_scroll_for_items\<close>
  returns after at most \<open>N + 1\<close> scroll-and-measure cycles, whatever the number of
  rendered items. When the page shows at least the target number of items after \<open>K\<close>
  scroll actions, it returns after at most \<open>K\<close> of them, whatever the heights.
  Whenever it returns, either the item count has reached the target or the last two
  height measurements were equal.
\<close>

theorem scroll_for_items_terminates:
  "(height_after (current d) (Suc (scrolls d + N)) = height_after (current d) (scrolls d + N)
    \<longrightarrow> (\<exists>d'. scroll_for_items d max_items = Some d' \<and> scrolls d' \<le> scrolls d + N + 1))
   \<and> (int (length (driver_find_elements (d\<lparr>scrolls := scrolls d + K\<rparr>) FEED_ITEM)) \<ge> max_items
    \<longrightarrow> (\<exists>d'. scroll_for_items d max_items = Some d' \<and> scrolls d' \<le> scrolls d + K))
   \<and> (\<forall>d'. scroll_for_items d max_items = Some d' \<longrightarrow>
         current d' = current d \<and> scrolls d \<le> scrolls d'
         \<and> (int (length (driver_find_elements d' FEED_ITEM)) \<ge> max_items
            \<or> (scrolls d < scrolls d'
                \<and> scroll_height d' = height_after (current d) (scrolls d' - 1))))"
  unfolding scroll_for_items_def
  using scroll_loop_terminates [of d N "scroll_height d" max_items]
    scroll_loop_reaches [of max_items d K "scroll_height d"]
    scroll_loop_stops [of max_items "scroll_height d" d]
  by blast

text \<open>There is no other way out of the loop: while the count stays below the target
  and every scroll changes the height, the loader does not return.\<close>

lemma scroll_for_items_diverges:
  assumes "\<forall>k \<ge> scrolls d.
      int (length (filter (matches FEED_ITEM)
             (dom_after (current d) k # descendants (dom_after (current d) k)))) < max_items
      \<and> height_after (current d) (Suc k) \<noteq> height_after (current d) k"
  shows "scroll_for_items d max_items = None"
proof (rule ccontr)
  assume "scroll_for_items d max_items \<noteq> None"
  then obtain d' where r: "scroll_loop max_items (scroll_height d) d = Some d'"
    by (auto simp: scroll_for_items_def)
  from scroll_loop_stops [OF r refl]
  have c: "current d' = current d" and le: "scrolls d \<le> scrolls d'"
    and stop: "int (length (driver_find_elements d' FEED_ITEM)) \<ge> max_items
      \<or> (scrolls d < scrolls d'
          \<and> scroll_height d' = height_after (current d) (scrolls d' - 1))"
    by blast+
  from stop show False
  proof
    assume "int (length (driver_find_elements d' FEED_ITEM)) \<ge> max_items"
    then show False
      using assms le c by (auto simp: driver_find_elements_def document_def)
  next
    assume b: "scrolls d < scrolls d'
          \<and> scroll_height d' = height_after (current d) (scrolls d' - 1)"
    then obtain k where k: "scrolls d' = Suc k" "scrolls d \<le> k"
      by (cases "scrolls d'") auto
    then show False using assms b c by (auto simp: scroll_height_def)
  qed
qed

lemma growing_page_scrolls:
  "map_option scrolls (scroll_for_items (driver_on growing_page) 20) = Some 3"
  by (simp add: scroll_for_items_def scroll_loop.simps driver_on_def growing_page_def
      driver_find_elements_def document_def page_with_def FEED_ITEM_def scroll_height_def
      sleep_def scroll_to_bottom_def)

lemma growing_page_stable:
  "height_after (current (driver_on growing_page)) (Suc (scrolls (driver_on growing_page) + 2)) =
   height_after (current (driver_on growing_page)) (scrolls (driver_on growing_page) + 2)"
  by (simp add: driver_on_def growing_page_def)

lemma filling_page_scrolls:
  "map_option scrolls (scroll_for_items (driver_on filling_page) 2) = Some 2"
  by (simp add: scroll_for_items_def scroll_loop.simps driver_on_def filling_page_def
      driver_find_elements_def document_def page_with_def FEED_ITEM_def scroll_height_def
      sleep_def scroll_to_bottom_def direct_item_def leaf_def comment_entity_def)

lemma filling_page_items:
  "int (length (driver_find_elements
      ((driver_on filling_page)\<lparr>scrolls := scrolls (driver_on filling_page) + 2\<rparr>) FEED_ITEM)) \<ge> 2"
  by (simp add: driver_on_def filling_page_def numeral_2_eq_2
      driver_find_elements_def document_def page_with_def FEED_ITEM_def
      direct_item_def leaf_def comment_entity_def)

lemma filling_page_grows:
  "height_after (current (driver_on filling_page)) (Suc k) \<noteq> height_after (current (driver_on filling_page)) k"
  by (simp add: driver_on_def filling_page_def)


theorem scroll_for_items_terminates_witness:
  "height_after growing_page 3 = height_after growing_page 2
   \<and> map_option scrolls (scroll_for_items (driver_on growing_page) 20) = Some 3
   \<and> (\<exists>d'. scroll_for_items (driver_on growing_page) 20 = Some d' \<and> scrolls d' \<le> 0 + 2 + 1
          \<and> 0 < scrolls d'
          \<and> scroll_height d' = height_after growing_page (scrolls d' - 1))
   \<and> map_option scrolls (scroll_for_items (driver_on filling_page) 2) = Some 2
   \<and> (\<exists>d'. scroll_for_items (driver_on filling_page) 2 = Some d' \<and> scrolls d' \<le> 0 + 2
          \<and> int (length (driver_find_elements d' FEED_ITEM)) \<ge> 2)"
proof -
  note t = scroll_for_items_terminates [of "driver_on growing_page" 2 20]
  from t growing_page_stable
  obtain d' where r: "scroll_for_items (driver_on growing_page) 20 = Some d'"
    and le: "scrolls d' \<le> scrolls (driver_on growing_page) + 2 + 1" by blast
  from t r have c: "current d' = current (driver_on growing_page)"
    and stop: "int (length (driver_find_elements d' FEED_ITEM)) \<ge> 20
      \<or> (scrolls (driver_on growing_page) < scrolls d'
          \<and> scroll_height d' =
              height_after (current (driver_on growing_page)) (scrolls d' - 1))"
    by blast+
  have "driver_find_elements d' FEED_ITEM = []"
    using c by (simp add: driver_find_elements_def document_def driver_on_def growing_page_def
        page_with_def FEED_ITEM_def)
  with stop have "scrolls (driver_on growing_page) < scrolls d'
          \<and> scroll_height d' =
              height_after (current (driver_on growing_page)) (scrolls d' - 1)"
    by simp
  then have "0 < scrolls d' \<and> scroll_height d' = height_after growing_page (scrolls d' - 1)"
    by (simp add: driver_on_def)
  moreover have "scrolls d' \<le> 0 + 2 + 1" using le by (simp add: driver_on_def)
  moreover have "height_after growing_page 3 = height_after growing_page 2"
    by (simp add: growing_page_def)
  ultimately have first: "height_after growing_page 3 = height_after growing_page 2
   \<and> map_option scrolls (scroll_for_items (driver_on growing_page) 20) = Some 3
   \<and> (\<exists>d'. scroll_for_items (driver_on growing_page) 20 = Some d' \<and> scrolls d' \<le> 0 + 2 + 1
          \<and> 0 < scrolls d'
          \<and> scroll_height d' = height_after growing_page (scrolls d' - 1))"
    using r growing_page_scrolls by blast
  note f = scroll_for_items_terminates [of "driver_on filling_page" _ 2 2]
  from f filling_page_items
  obtain e' where fr: "scroll_for_items (driver_on filling_page) 2 = Some e'"
    and fle: "scrolls e' \<le> scrolls (driver_on filling_page) + 2" by blast
  from f fr have fc: "current e' = current (driver_on filling_page)"
    and fstop: "int (length (driver_find_elements e' FEED_ITEM)) \<ge> 2
      \<or> (scrolls (driver_on filling_page) < scrolls e'
          \<and> scroll_height e' =
              height_after (current (driver_on filling_page)) (scrolls e' - 1))"
    by blast+
  have "\<not> (scrolls (driver_on filling_page) < scrolls e'
          \<and> scroll_height e' =
              height_after (current (driver_on filling_page)) (scrolls e' - 1))"
  proof
    assume a: "scrolls (driver_on filling_page) < scrolls e'
          \<and> scroll_height e' =
              height_after (current (driver_on filling_page)) (scrolls e' - 1)"
    then obtain k where "scrolls e' = Suc k" by (cases "scrolls e'") auto
    then show False using a fc filling_page_grows [of k] by (simp add: scroll_height_def)
  qed
  with fstop have "int (length (driver_find_elements e' FEED_ITEM)) \<ge> 2" by blast
  moreover have "scrolls e' \<le> 0 + 2" using fle by (simp add: driver_on_def)
  ultimately have second: "\<exists>d'. scroll_for_items (driver_on filling_page) 2 = Some d'
      \<and> scrolls d' \<le> 0 + 2 \<and> int (length (driver_find_elements d' FEED_ITEM)) \<ge> 2"
    using fr by blast
  show ?thesis using first second filling_page_scrolls by blast
qed

text \<open>
  C8. When the number of rendered feed items is at least the target at entry,
  \<^verbatim>\<open>_scroll_for_items\<close> returns the driver as it found it: no scroll action, no
  settle pause, the same scroll offset and the same page height.
\<close>

theorem scroll_for_items_noop:
  "int (length (driver_find_elements d FEED_ITEM)) \<ge> max_items \<Longrightarrow>
   scroll_for_items d max_items = Some d
   \<and> (\<exists>d'. scroll_for_items d max_items = Some d' \<and> scrolls d' = scrolls d
         \<and> slept d' = slept d \<and> scroll_y d' = scroll_y d
         \<and> scroll_height d' = scroll_height d)"
proof -
  assume "int (length (driver_find_elements d FEED_ITEM)) \<ge> max_items"
  then have "scroll_for_items d max_items = Some d"
    unfolding scroll_for_items_def by (subst scroll_loop.simps) simp
  then show ?thesis by simp
qed

lemma reply_and_direct_items:
  "int (length (driver_find_elements reply_and_direct FEED_ITEM)) \<ge> 2"
  by code_simp

theorem scroll_for_items_noop_witness:
  "int (length (driver_find_elements reply_and_direct FEED_ITEM)) \<ge> 2
   \<and> scroll_for_items reply_and_direct 2 = Some reply_and_direct"
  using scroll_for_items_noop [of 2 reply_and_direct] reply_and_direct_items by blast

section \<open>Failure isolation in the comment extractor\<close>

text \<open>
  C1. Per-item failure isolation, at the first position. On a page of five items of which
  only the first is malformed, having no actor title, \<^verbatim>\<open>_scrape_comments\<close> does not
  return the four records of the other items: the warning of the handler formats
  \<^verbatim>\<open>post_author\<close>, which no item has bound yet, so the handler raises
  \<open>UnboundLocalError\<close>, the loop is left, and the result is the empty list with an
  error logged for the whole list.
\<close>

theorem scrape_comments_first_item_untitled:
  "scrape_comments first_untitled = ([], [CommentsListError UnboundLocalError])"
  by code_simp

text \<open>At the third position the same item is skipped, and the warning names the author
  of the item before it; a first item that fails after its actor title was read is
  skipped as well.\<close>

lemma scrape_comments_third_item_untitled:
  "scrape_comments third_untitled =
     ([direct_record ''Ann'' ''p1'' ''c1'' ''1d'', direct_record ''Bob'' ''p2'' ''c2'' ''2d'',
       direct_record ''Cy'' ''p4'' ''c4'' ''4d'', direct_record ''Di'' ''p5'' ''c5'' ''5d''],
      [ParseWarning ''Bob'' NoSuchElementException])"
  by code_simp

lemma scrape_comments_first_item_uncommented:
  "scrape_comments first_uncommented =
     ([direct_record ''Ann'' ''p2'' ''c2'' ''2d'', direct_record ''Bob'' ''p3'' ''c3'' ''3d'',
       direct_record ''Cy'' ''p4'' ''c4'' ''4d'', direct_record ''Di'' ''p5'' ''c5'' ''5d''],
      [ParseWarning ''Zed'' NoSuchElementException])"
  by code_simp

text \<open>In general a failing item is skipped with a warning as soon as \<^verbatim>\<open>post_author\<close>
  is bound, and ends the loop when it is not.\<close>

lemma scrape_comments_loop_skip:
  assumes "classify bad = Inr reply" and "parse_comment bad reply v = (Some a, Inl e)"
  shows "scrape_comments_loop (bad # ys) cs v lg =
           (if int (length cs) \<ge> MAX_COMMENTS then (cs, lg, None)
            else scrape_comments_loop ys cs (Some a) (lg @ [ParseWarning a e]))"
  using assms by simp

lemma scrape_comments_loop_abort:
  assumes "int (length cs) < MAX_COMMENTS" and "isl (find_element bad ACTOR_TITLE)"
  shows "scrape_comments_loop (bad # ys) cs None lg = (cs, lg, Some UnboundLocalError)"
proof -
  obtain reply where "classify bad = Inr reply"
    by (cases "find_element bad HEADER_TEXT")
       (auto simp: classify_def classify_attempt_def and_then_def)
  moreover obtain e where "parse_comment bad reply None = (None, Inl e)"
    using assms(2) by (cases "find_element bad ACTOR_TITLE") (auto simp: parse_comment_def)
  ultimately show ?thesis using assms(1) by simp
qed

section \<open>Properties of the orchestrator\<close>




lemma comments_phase_None:
  "comments_phase u d = None \<longleftrightarrow>
     (\<exists>dn x. driver_get d (comments_url u) = (None, dn) \<and> wait_for_content dn 20 = Inr x
        \<and> scroll_for_items dn MAX_COMMENTS = None)"
  by (auto simp: comments_phase_def split: option.splits prod.splits sum.splits)



text \<open>Without a session there is no phase at all: the outer handler answers.\<close>

lemma get_person_activity_no_session:
  "session_error d = Some e \<Longrightarrow>
   get_person_activity d u = Some (ToolError e ''get_person_activity'', [], d)"
  by (simp add: get_person_activity_def safe_get_driver_def handle_tool_error_def)










section \<open>Properties of the saved-post tools\<close>

lemma json_lower_text:
  "text_is_string post \<Longrightarrow> \<exists>t. json_lower (dict_get post ''Text'' (JStr [])) = Inr t"
  by (auto simp: text_is_string_def dict_get_def json_lower_def split: option.splits json.splits)

lemma search_loop_empty:
  "list_all text_is_string posts \<Longrightarrow>
   search_loop posts [] mode acc =
     Inr (if upper mode = code_points ''AND'' then acc @ posts else acc)"
proof (induction posts arbitrary: acc)
  case Nil
  then show ?case by simp
next
  case (Cons post posts)
  then obtain t where "json_lower (dict_get post ''Text'' (JStr [])) = Inr t"
    using json_lower_text by auto
  then show ?case using Cons by simp
qed

lemma json_lower_error:
  "\<not> text_is_string post \<Longrightarrow>
   json_lower (dict_get post ''Text'' (JStr [])) = Inl AttributeError"
  by (auto simp: text_is_string_def dict_get_def json_lower_def split: option.splits json.splits)

lemma search_loop_raises:
  "\<not> list_all text_is_string posts \<Longrightarrow>
   search_loop posts keywords mode acc = Inl AttributeError"
proof (induction posts arbitrary: acc)
  case Nil
  then show ?case by simp
next
  case (Cons post posts)
  show ?case
  proof (cases "text_is_string post")
    case True
    then obtain t where t: "json_lower (dict_get post ''Text'' (JStr [])) = Inr t"
      using json_lower_text by auto
    from True Cons.prems have "\<not> list_all text_is_string posts" by simp
    then show ?thesis using t Cons.IH by simp
  next
    case False
    then show ?thesis by (simp add: json_lower_error)
  qed
qed

lemma upper_modes:
  "upper ''AND'' = code_points ''AND''" "upper ''OR'' \<noteq> code_points ''AND''"
  by (simp_all add: upper_def upper_points_def code_points_def)

text \<open>
  C9, as the code has it. On a saved post file whose posts carry a string (or nothing)
  under \<^verbatim>\<open>Text\<close>, \<^verbatim>\<open>search_posts\<close> with an empty keyword list returns every post
  in \<^verbatim>\<open>AND\<close> mode (all of them counted, the first five listed) and none in
  \<^verbatim>\<open>OR\<close> mode; any other mode string behaves as one of the two, by its upper-case
  form. On a file with a post whose \<^verbatim>\<open>Text\<close> is not a string the call raises
  \<open>AttributeError\<close>, whatever the keywords and the mode, because the text is lowered
  before the mode is looked at.
\<close>

theorem search_posts_empty_keywords:
  "(list_all text_is_string posts \<longrightarrow>
      search_posts (Saved posts) [] ''AND'' =
        Inr (SearchResult [] ''AND'' (length posts) (take 5 posts) (length posts > 5))
      \<and> search_posts (Saved posts) [] ''OR'' = Inr (SearchResult [] ''OR'' 0 [] False)
      \<and> search_posts (Saved posts) [] mode =
          Inr (if upper mode = code_points ''AND''
               then SearchResult [] mode (length posts) (take 5 posts) (length posts > 5)
               else SearchResult [] mode 0 [] False))
   \<and> (\<not> list_all text_is_string posts \<longrightarrow>
        search_posts (Saved posts) keywords mode = Inl AttributeError)"
  by (simp add: search_posts_def search_loop_empty search_loop_raises upper_modes)

lemma six_posts_text: "list_all text_is_string six_posts"
  by (simp add: six_posts_def text_post_def text_is_string_def)

lemma null_text_post_text: "\<not> list_all text_is_string [null_text_post]"
  by (simp add: null_text_post_def stored_text_def dict_get_def text_is_string_def)

theorem search_posts_empty_keywords_witness:
  "list_all text_is_string six_posts
   \<and> search_posts (Saved six_posts) [] ''AND'' =
       Inr (SearchResult [] ''AND'' 6
              (map text_post [''one'', ''two'', ''three'', ''four'', ''five'']) True)
   \<and> search_posts (Saved six_posts) [] ''OR'' = Inr (SearchResult [] ''OR'' 0 [] False)
   \<and> \<not> list_all text_is_string [null_text_post]
   \<and> search_posts (Saved [null_text_post]) [''post''] ''OR'' = Inl AttributeError"
proof -
  have "length six_posts = 6"
    and "take 5 six_posts = map text_post [''one'', ''two'', ''three'', ''four'', ''five'']"
    by (simp_all add: six_posts_def)
  then have "search_posts (Saved six_posts) [] ''AND'' =
       Inr (SearchResult [] ''AND'' 6
              (map text_post [''one'', ''two'', ''three'', ''four'', ''five'']) True)
   \<and> search_posts (Saved six_posts) [] ''OR'' = Inr (SearchResult [] ''OR'' 0 [] False)"
    using search_posts_empty_keywords [of six_posts "''AND''"] six_posts_text by simp
  moreover have "search_posts (Saved [null_text_post]) [''post''] ''OR'' = Inl AttributeError"
    using search_posts_empty_keywords [of "[null_text_post]" "''OR''" "[''post'']"]
      null_text_post_text by blast
  ultimately show ?thesis using six_posts_text null_text_post_text by blast
qed

text \<open>
  C9 as stated fails on a saved file the fetch can write: a post whose \<^verbatim>\<open>text\<close> is
  null in the API's answer is stored with a null \<^verbatim>\<open>Text\<close>, and on that file the
  search with no keywords raises \<open>AttributeError\<close> in \<^verbatim>\<open>AND\<close> mode and in
  \<^verbatim>\<open>OR\<close> mode instead of returning the post or nothing.
\<close>

theorem search_posts_empty_keywords_counterexample:
  "stored_text [''text'' \<mapsto> JNull] = JNull
   \<and> search_posts (Saved [null_text_post]) [] ''AND'' = Inl AttributeError
   \<and> search_posts (Saved [null_text_post]) [] ''OR'' = Inl AttributeError"
  by (simp add: search_posts_def null_text_post_def stored_text_def dict_get_def json_lower_def)

text \<open>Lowering follows the code points: a keyword with a capital E acute finds a text
  with the small one.\<close>

lemma search_posts_accented:
  "(case search_posts (Saved [accented_post]) [[char_of (201::nat)]] ''OR'' of
      Inl e \<Rightarrow> 0 | Inr r \<Rightarrow> total_results r) = 1"
  by code_simp

lemma strptime_error: "strptime s = Inl e \<Longrightarrow> e = ValueError"
  by (auto simp: strptime_def split: list.splits prod.splits if_splits)

lemma posts_between_raises:
  "post \<in> set posts \<Longrightarrow> isl (posted_date post) \<Longrightarrow> isl (posts_between posts s e)"
proof (induction posts)
  case Nil
  then show ?case by simp
next
  case (Cons p ps)
  then show ?case
    by (cases "posted_date p"; cases "posts_between ps s e") auto
qed

lemma strptime_empty: "strptime [] = Inl ValueError"
  by (simp add: strptime_def re_ymd_def)

text \<open>
  C10. \<^verbatim>\<open>get_posts_by_date\<close> guards the parsing of its two arguments only: with
  arguments that parse, a saved post whose \<^verbatim>\<open>Posted Date\<close> does not parse makes the
  call raise instead of returning a dictionary, while an argument that does not parse
  gives the invalid-format message. The fetch stores the empty string as the date of a
  post without a \<^verbatim>\<open>posted\<close> field, and the empty string does not parse.
\<close>

theorem get_posts_by_date_partial:
  "(strptime start_date = Inr s \<and> strptime end_date = Inr e \<and> post \<in> set posts
      \<and> isl (posted_date post)
    \<longrightarrow> isl (get_posts_by_date (Saved posts) start_date end_date))
   \<and> (isl (strptime start_date) \<or> isl (strptime end_date)
      \<longrightarrow> get_posts_by_date (Saved posts) start_date end_date = Inr InvalidDateFormat)
   \<and> stored_posted_date Map.empty = Inr (JStr [])
   \<and> posted_date [''Posted Date'' \<mapsto> JStr []] = Inl ValueError"
proof (intro conjI impI)
  assume a: "strptime start_date = Inr s \<and> strptime end_date = Inr e \<and> post \<in> set posts
      \<and> isl (posted_date post)"
  then have "isl (posts_between posts s e)" using posts_between_raises by blast
  then show "isl (get_posts_by_date (Saved posts) start_date end_date)"
    using a by (cases "posts_between posts s e") (simp_all add: get_posts_by_date_def and_then_def)
next
  assume "isl (strptime start_date) \<or> isl (strptime end_date)"
  then show "get_posts_by_date (Saved posts) start_date end_date = Inr InvalidDateFormat"
    by (cases "strptime start_date"; cases "strptime end_date")
       (auto simp: get_posts_by_date_def and_then_def dest: strptime_error)
next
  show "stored_posted_date Map.empty = Inr (JStr [])"
    by (simp add: stored_posted_date_def dict_get_def)
  show "posted_date [''Posted Date'' \<mapsto> JStr []] = Inl ValueError"
    by (simp add: posted_date_def strptime_empty)
qed

lemma strptime_examples:
  "strptime ''2024-01-01'' = Inr (2024, 1, 1)"
  "strptime ''2024-12-31'' = Inr (2024, 12, 31)"
  "strptime ''2024-3-5'' = Inr (2024, 3, 5)"
  "strptime ''2023-02-29'' = Inl ValueError"
  "strptime ''2024-02-29'' = Inr (2024, 2, 29)"
  "strptime ''2024-01-011'' = Inl ValueError"
  "strptime ''2 days ago'' = Inl ValueError"
  by code_simp+

lemma undated_post_date: "isl (posted_date undated_post)"
  by (simp add: undated_post_def posted_date_def strptime_empty)

theorem get_posts_by_date_partial_witness:
  "strptime ''2024-01-01'' = Inr (2024, 1, 1) \<and> strptime ''2024-12-31'' = Inr (2024, 12, 31)
   \<and> get_posts_by_date (Saved [dated_post, undated_post]) ''2024-01-01'' ''2024-12-31'' = Inl ValueError
   \<and> get_posts_by_date (Saved [dated_post, undated_post]) ''01/01/2024'' ''2024-12-31'' = Inr InvalidDateFormat"
proof -
  note t = get_posts_by_date_partial [of _ _ _ _ undated_post "[dated_post, undated_post]"]
  have "isl (get_posts_by_date (Saved [dated_post, undated_post]) ''2024-01-01'' ''2024-12-31'')"
    using t [of "''2024-01-01''" "(2024, 1, 1)" "''2024-12-31''" "(2024, 12, 31)"]
      strptime_examples(1,2) undated_post_date by simp
  moreover have "posted_date dated_post = Inr (2024, 3, 5)"
    by (simp add: dated_post_def posted_date_def) code_simp
  ultimately have "get_posts_by_date (Saved [dated_post, undated_post]) ''2024-01-01'' ''2024-12-31'' = Inl ValueError"
    by (simp add: get_posts_by_date_def and_then_def strptime_examples posted_date_def undated_post_def strptime_empty)
  moreover have "isl (strptime ''01/01/2024'')" by code_simp
  then have "get_posts_by_date (Saved [dated_post, undated_post]) ''01/01/2024'' ''2024-12-31'' = Inr InvalidDateFormat"
    using t [of "''01/01/2024''" _ "''2024-12-31''"] by blast
  ultimately show ?thesis using strptime_examples(1,2) by blast
qed

end
